theory Spec2Isabelle
  imports Complex_Main "HOL-Library.Word"
begin

unbundle bit_operations_syntax

section \<open>Exceptions and rejected promises\<close>

text \<open>
  A JavaScript exception carries a constructor and a message. An \<open>async\<close> function
  of the source is modelled as a function into \<open>js_error + 'a\<close>: \<open>Inl e\<close> is the rejected
  promise (the \<open>throw\<close>), \<open>Inr v\<close> the fulfilled one. A \<open>DOMException\<close> carries its name
  first and its message second.
\<close>

datatype js_error =
    Error string
  | TypeError string
  | RangeError string
  | DOMException string string

fun message :: "js_error \<Rightarrow> string" where
  "message (Error m) = m"
| "message (TypeError m) = m"
| "message (RangeError m) = m"
| "message (DOMException n m) = m"

section \<open>The task model\<close>

text \<open>
  \<open>interface Task\<close>. The fields marked \<open>?\<close> in the source are options. TypeScript's casts
  (\<open>fc.args.title as string\<close>, \<open>fc.args.completed as boolean\<close>) check nothing at run time,
  so a title or a completion flag that the caller left out is \<open>undefined\<close> in the stored
  task: \<open>title\<close> and \<open>completed\<close> are options too, \<open>None\<close> being \<open>undefined\<close>. The
  \<open>Priority\<close> type is a union of string literals, a plain string at run time. Task ids are
  JavaScript numbers holding integers; they are modelled as mathematical integers.
\<close>

record Subtask =
  sub_id :: string
  sub_title :: string
  sub_completed :: bool

record Task =
  task_id :: int
  title :: "string option"
  description :: string
  priority :: string
  completed :: "bool option"
  created_at :: string
  due_date :: "string option"
  completed_at :: "string option"
  subtasks :: "Subtask list option"

text \<open>\<open>Omit<Task, 'id' | 'created_at'>\<close>, the argument of \<open>createTask\<close>.\<close>

record TaskData =
  data_title :: "string option"
  data_description :: string
  data_priority :: string
  data_completed :: bool
  data_due_date :: "string option"
  data_completed_at :: "string option"
  data_subtasks :: "Subtask list option"

text \<open>
  \<open>Partial<Task>\<close>, the argument of \<open>updateTask\<close>: every key may be absent (\<open>None\<close>).
  A key that is present overrides the task's field in the object spread, also when its
  value is \<open>undefined\<close> (\<open>Some None\<close>).
\<close>

record TaskUpdates =
  upd_id :: "int option"
  upd_title :: "string option option"
  upd_description :: "string option"
  upd_priority :: "string option"
  upd_completed :: "bool option option"
  upd_created_at :: "string option"
  upd_due_date :: "string option option"
  upd_completed_at :: "string option option"
  upd_subtasks :: "Subtask list option option"

definition no_updates :: TaskUpdates where
  "no_updates = \<lparr>upd_id = None, upd_title = None, upd_description = None,
     upd_priority = None, upd_completed = None, upd_created_at = None,
     upd_due_date = None, upd_completed_at = None, upd_subtasks = None\<rparr>"

definition override :: "'a \<Rightarrow> 'a option \<Rightarrow> 'a" where
  "override old new = (case new of None \<Rightarrow> old | Some v \<Rightarrow> v)"

text \<open>The object spread \<open>{ ...tasks[index], ...updates }\<close>.\<close>

definition spread :: "Task \<Rightarrow> TaskUpdates \<Rightarrow> Task" where
  "spread t u =
     \<lparr>task_id = override (task_id t) (upd_id u),
      title = override (title t) (upd_title u),
      description = override (description t) (upd_description u),
      priority = override (priority t) (upd_priority u),
      completed = override (completed t) (upd_completed u),
      created_at = override (created_at t) (upd_created_at u),
      due_date = override (due_date t) (upd_due_date u),
      completed_at = override (completed_at t) (upd_completed_at u),
      subtasks = override (subtasks t) (upd_subtasks u)\<rparr>"

section \<open>The mock backend \<open>DjangoAPI\<close>\<close>

text \<open>
  The backend keeps the task list under one key of \<open>localStorage\<close>. The store is the
  value under that key: \<open>None\<close> when the key is absent, \<open>Some ts\<close> when it holds the
  serialised list \<open>ts\<close>. The \<open>setTimeout\<close> delays are not modelled. The clock reading
  \<open>new Date().toISOString()\<close> is an argument.
\<close>

type_synonym db = "Task list option"

definition getTasks :: "db \<Rightarrow> js_error + Task list" where
  "getTasks raw = Inr (case raw of None \<Rightarrow> [] | Some ts \<Rightarrow> ts)"

definition createTask :: "string \<Rightarrow> TaskData \<Rightarrow> db \<Rightarrow> js_error + (Task \<times> db)" where
  "createTask now data raw =
     (case getTasks raw of
        Inl e \<Rightarrow> Inl e
      | Inr tasks \<Rightarrow>
          let nextId = (if length tasks > 0 then Max (set (map task_id tasks)) + 1 else 1);
              newTask = \<lparr>task_id = nextId,
                         title = data_title data,
                         description = data_description data,
                         priority = data_priority data,
                         completed = Some (data_completed data),
                         created_at = now,
                         due_date = data_due_date data,
                         completed_at = data_completed_at data,
                         subtasks = Some (case data_subtasks data of None \<Rightarrow> [] | Some s \<Rightarrow> s)\<rparr>
          in Inr (newTask, Some (newTask # tasks)))"

text \<open>
  \<open>findIndex\<close>: the first position whose element satisfies the predicate, \<open>None\<close> for
  the source's \<open>-1\<close>.
\<close>

fun findIndex :: "('a \<Rightarrow> bool) \<Rightarrow> 'a list \<Rightarrow> nat option" where
  "findIndex P [] = None"
| "findIndex P (x # xs) =
     (if P x then Some 0 else (case findIndex P xs of None \<Rightarrow> None | Some i \<Rightarrow> Some (Suc i)))"

text \<open>
  The id parameter of \<open>updateTask\<close> and \<open>deleteTask\<close> is a \<open>number\<close> in the source; the
  dispatcher passes \<open>fc.args.id as number\<close> unchecked, so \<open>undefined\<close> (\<open>None\<close>) can
  arrive. \<open>t.id === undefined\<close> is false for every stored task.
\<close>

definition updateTask :: "int option \<Rightarrow> TaskUpdates \<Rightarrow> db \<Rightarrow> js_error + (Task \<times> db)" where
  "updateTask i updates raw =
     (case getTasks raw of
        Inl e \<Rightarrow> Inl e
      | Inr tasks \<Rightarrow>
          (case findIndex (\<lambda>t. Some (task_id t) = i) tasks of
             None \<Rightarrow> Inl (Error ''404 Not Found'')
           | Some index \<Rightarrow>
               let updatedTask = spread (tasks ! index) updates
               in Inr (updatedTask, Some (tasks[index := updatedTask]))))"

definition deleteTask :: "int option \<Rightarrow> db \<Rightarrow> js_error + db" where
  "deleteTask i raw =
     (case getTasks raw of
        Inl e \<Rightarrow> Inl e
      | Inr tasks \<Rightarrow>
          let filtered = filter (\<lambda>t. Some (task_id t) \<noteq> i) tasks
          in Inr (Some filtered))"

text \<open>\<open>!t.completed\<close>: \<open>undefined\<close> and \<open>false\<close> are both falsy.\<close>

definition deleteCompletedTasks :: "db \<Rightarrow> js_error + (nat \<times> db)" where
  "deleteCompletedTasks raw =
     (case getTasks raw of
        Inl e \<Rightarrow> Inl e
      | Inr tasks \<Rightarrow>
          let initialCount = length tasks;
              activeTasks = filter (\<lambda>t. completed t \<noteq> Some True) tasks
          in Inr (initialCount - length activeTasks, Some activeTasks))"

definition clearDatabase :: "db \<Rightarrow> js_error + db" where
  "clearDatabase raw = Inr None"

section \<open>Application state\<close>

text \<open>
  The part of the component's state that the live session reads and writes: the
  \<open>localStorage\<close> entry, and the React state \<open>tasks\<close>, \<open>isLoading\<close>, \<open>isLiveActive\<close>
  and \<open>liveError\<close>.
\<close>

record app =
  storage :: db
  tasks :: "Task list"
  isLoading :: bool
  isLiveActive :: bool
  liveError :: "string option"

text \<open>\<open>loadTasks\<close> catches a failed fetch itself and always clears \<open>isLoading\<close>.\<close>

definition loadTasks :: "app \<Rightarrow> app" where
  "loadTasks s =
     (case getTasks (storage s) of
        Inl e \<Rightarrow> s\<lparr>isLoading := False\<rparr>
      | Inr data \<Rightarrow> s\<lparr>tasks := data, isLoading := False\<rparr>)"

section \<open>The tool dispatcher\<close>

text \<open>
  A function call of the remote model. Every property is optional in the SDK's type, and
  \<open>args\<close> is an untyped record: each argument the dispatcher reads is an option.
\<close>

record Args =
  arg_title :: "string option"
  arg_description :: "string option"
  arg_priority :: "string option"
  arg_due_date :: "string option"
  arg_id :: "int option"
  arg_completed :: "bool option"

record FunctionCall =
  fc_id :: "string option"
  fc_name :: "string option"
  fc_args :: "Args option"

text \<open>The entries of the \<open>get_tasks\<close> result.\<close>

record TaskSummary =
  sum_id :: int
  sum_title :: "string option"
  sum_priority :: string
  sum_completed :: "bool option"
  sum_due_date :: "string option"

text \<open>
  The values the variable \<open>result\<close> takes: \<open>{ error }\<close>, \<open>{ success: true, task }\<close>,
  \<open>{ tasks }\<close>, \<open>{ success: true }\<close> and \<open>{ success: true, count }\<close>.
\<close>

datatype tool_result =
    Res_error string
  | Res_task Task
  | Res_tasks "TaskSummary list"
  | Res_success
  | Res_count nat

record FunctionResponse =
  resp_id :: "string option"
  resp_name :: "string option"
  response :: tool_result

text \<open>\<open>a || b\<close> on strings: \<open>undefined\<close> and the empty string are falsy.\<close>

definition or_str :: "string option \<Rightarrow> string \<Rightarrow> string" where
  "or_str a b = (case a of None \<Rightarrow> b | Some v \<Rightarrow> if v = [] then b else v)"

text \<open>
  Reading a property of \<open>fc.args\<close> throws a \<open>TypeError\<close> when \<open>args\<close> is \<open>undefined\<close>
  (the message is the engine's).
\<close>

definition args_of :: "FunctionCall \<Rightarrow> js_error + Args" where
  "args_of fc =
     (case fc_args fc of
        None \<Rightarrow> Inl (TypeError ''Cannot read properties of undefined'')
      | Some a \<Rightarrow> Inr a)"

definition summary :: "Task \<Rightarrow> TaskSummary" where
  "summary t = \<lparr>sum_id = task_id t, sum_title = title t, sum_priority = priority t,
     sum_completed = completed t, sum_due_date = due_date t\<rparr>"

text \<open>
  The body of the \<open>try\<close> block for one call: the \<open>switch\<close> on \<open>fc.name\<close>. It returns the
  state reached and either the exception thrown or the value of \<open>result\<close>. \<open>result\<close>
  starts as \<open>{ error: "Unknown function" }\<close> and the \<open>switch\<close> has no default case.
  The first argument is what \<open>new Date().toISOString()\<close> reads while this call is served.
\<close>

definition call_body :: "string \<Rightarrow> FunctionCall \<Rightarrow> app \<Rightarrow> app \<times> (js_error + tool_result)" where
  "call_body now fc s =
     (if fc_name fc = Some ''create_task'' then
        (case args_of fc of
           Inl e \<Rightarrow> (s, Inl e)
         | Inr a \<Rightarrow>
             (case createTask now
                     \<lparr>data_title = arg_title a,
                      data_description = or_str (arg_description a) [],
                      data_priority = or_str (arg_priority a) ''Medium'',
                      data_completed = False,
                      data_due_date = Some (or_str (arg_due_date a) []),
                      data_completed_at = None,
                      data_subtasks = None\<rparr> (storage s) of
                Inl e \<Rightarrow> (s, Inl e)
              | Inr (newTask, raw) \<Rightarrow> (loadTasks (s\<lparr>storage := raw\<rparr>), Inr (Res_task newTask))))
      else if fc_name fc = Some ''get_tasks'' then
        (case getTasks (storage s) of
           Inl e \<Rightarrow> (s, Inl e)
         | Inr ts \<Rightarrow> (s, Inr (Res_tasks (map summary ts))))
      else if fc_name fc = Some ''update_task_status'' then
        (case args_of fc of
           Inl e \<Rightarrow> (s, Inl e)
         | Inr a \<Rightarrow>
             (case updateTask (arg_id a) (no_updates\<lparr>upd_completed := Some (arg_completed a)\<rparr>)
                     (storage s) of
                Inl e \<Rightarrow> (s, Inl e)
              | Inr (t, raw) \<Rightarrow> (loadTasks (s\<lparr>storage := raw\<rparr>), Inr Res_success)))
      else if fc_name fc = Some ''delete_task'' then
        (case args_of fc of
           Inl e \<Rightarrow> (s, Inl e)
         | Inr a \<Rightarrow>
             (case deleteTask (arg_id a) (storage s) of
                Inl e \<Rightarrow> (s, Inl e)
              | Inr raw \<Rightarrow> (loadTasks (s\<lparr>storage := raw\<rparr>), Inr Res_success)))
      else if fc_name fc = Some ''delete_completed_tasks'' then
        (case deleteCompletedTasks (storage s) of
           Inl e \<Rightarrow> (s, Inl e)
         | Inr (count, raw) \<Rightarrow> (loadTasks (s\<lparr>storage := raw\<rparr>), Inr (Res_count count)))
      else (s, Inr (Res_error ''Unknown function'')))"

text \<open>
  One iteration of the \<open>for\<close> loop: the \<open>try\<close> block, the \<open>catch\<close> that turns the
  exception into \<open>{ error: e.message }\<close>, and the \<open>sendToolResponse\<close> that follows in
  either case. The response sent is returned with the state.
\<close>

definition handle_call :: "string \<times> FunctionCall \<Rightarrow> app \<Rightarrow> app \<times> FunctionResponse" where
  "handle_call c s =
     (case call_body (fst c) (snd c) s of
        (s', Inl e) \<Rightarrow>
          (s', \<lparr>resp_id = fc_id (snd c), resp_name = fc_name (snd c),
                response = Res_error (message e)\<rparr>)
      | (s', Inr result) \<Rightarrow>
          (s', \<lparr>resp_id = fc_id (snd c), resp_name = fc_name (snd c),
                response = result\<rparr>))"

text \<open>
  The loop \<open>for (const fc of msg.toolCall.functionCalls)\<close>. Each call is paired with
  the clock reading of its turn. The responses are returned in the order they are sent.
\<close>

fun toolCall_loop :: "(string \<times> FunctionCall) list \<Rightarrow> app \<Rightarrow> app \<times> FunctionResponse list" where
  "toolCall_loop [] s = (s, [])"
| "toolCall_loop (c # cs) s =
     (case handle_call c s of
        (s1, r) \<Rightarrow> (case toolCall_loop cs s1 of (s2, rs) \<Rightarrow> (s2, r # rs)))"

text \<open>
  The sibling path of the user interface, \<open>handleToggle\<close>: it flips the flag and stamps
  \<open>completed_at\<close> with the clock reading when the task becomes completed (and clears it
  otherwise), first in the React state and then in the store.
\<close>

definition handleToggle :: "string \<Rightarrow> int \<Rightarrow> bool \<Rightarrow> app \<Rightarrow> js_error + app" where
  "handleToggle now i current s =
     (let updates = no_updates\<lparr>upd_completed := Some (Some (\<not> current)),
                                upd_completed_at := Some (if \<not> current then Some now else None)\<rparr>;
          s1 = s\<lparr>tasks := map (\<lambda>t. if task_id t = i then spread t updates else t) (tasks s)\<rparr>
      in case updateTask (Some i) updates (storage s1) of
           Inl e \<Rightarrow> Inl e
         | Inr (t, raw) \<Rightarrow> Inr (s1\<lparr>storage := raw\<rparr>))"

section \<open>The PCM codec\<close>

text \<open>
  A \<open>Float32Array\<close> is a list of samples. A sample is modelled as a real number: every
  finite 32-bit float is a rational, and on such values the products with \<open>0x8000\<close> and
  \<open>0x7FFF\<close> and the division of a 16-bit integer by \<open>32768.0\<close> are exact in double
  precision. An \<open>Int16Array\<close> is a list of 16-bit words, an \<open>ArrayBuffer\<close> viewed
  through a \<open>Uint8Array\<close> a list of bytes (little-endian, as on every platform the
  program runs on), and a binary string a list of 8-bit characters.
\<close>

type_synonym byte = "8 word"
type_synonym int16 = "16 word"

text \<open>
  Storing a number into an \<open>Int16Array\<close> element: the fraction is dropped (rounding
  towards zero) and the integer is reduced modulo \<open>2^16\<close>.
\<close>

definition ToInt16 :: "real \<Rightarrow> int16" where
  "ToInt16 v = word_of_int (if v < 0 then \<lceil>v\<rceil> else \<lfloor>v\<rfloor>)"

text \<open>The body of the loop of \<open>float32To16BitPCM\<close> for one sample.\<close>

definition pcm_sample :: "real \<Rightarrow> int16" where
  "pcm_sample x =
     (let s = max (- 1) (min 1 x)
      in ToInt16 (if s < 0 then s * 32768 else s * 32767))"

definition int16_bytes :: "int16 \<Rightarrow> byte list" where
  "int16_bytes w = [ucast w, ucast (drop_bit 8 w)]"

definition float32To16BitPCM :: "real list \<Rightarrow> byte list" where
  "float32To16BitPCM float32 = concat (map (\<lambda>x. int16_bytes (pcm_sample x)) float32)"

subsection \<open>The platform's \<open>btoa\<close> and \<open>atob\<close>\<close>

text \<open>
  \<open>btoa\<close> and \<open>atob\<close> are built into the browser; they are modelled from their
  standard (RFC 4648 base64 with padding for \<open>btoa\<close>, the forgiving decoder for
  \<open>atob\<close>). A character of the model has 8 bits, so the input of \<open>btoa\<close> is always a
  binary string.
\<close>

definition alphabet :: string where
  "alphabet = ''ABCDEFGHIJKLMNOPQRSTUVWXYZabcdefghijklmnopqrstuvwxyz0123456789+/''"

definition b64char :: "nat \<Rightarrow> char" where
  "b64char n = alphabet ! n"

definition b64val :: "char \<Rightarrow> nat option" where
  "b64val c = findIndex (\<lambda>x. x = c) alphabet"

fun encode_groups :: "nat list \<Rightarrow> string" where
  "encode_groups (a # b # c # rest) =
     [b64char (a div 4), b64char ((a mod 4) * 16 + b div 16),
      b64char ((b mod 16) * 4 + c div 64), b64char (c mod 64)] @ encode_groups rest"
| "encode_groups [a, b] =
     [b64char (a div 4), b64char ((a mod 4) * 16 + b div 16), b64char ((b mod 16) * 4), CHR ''='']"
| "encode_groups [a] =
     [b64char (a div 4), b64char ((a mod 4) * 16), CHR ''='', CHR ''='']"
| "encode_groups [] = []"

definition btoa :: "string \<Rightarrow> string" where
  "btoa binary = encode_groups (map of_char binary)"

definition ascii_whitespace :: "char \<Rightarrow> bool" where
  "ascii_whitespace c = (c \<in> set [CHR 0x09, CHR 0x0A, CHR 0x0C, CHR 0x0D, CHR 0x20])"

text \<open>Removing one or two trailing \<open>=\<close>.\<close>

definition strip_padding :: "string \<Rightarrow> string" where
  "strip_padding d =
     (case rev d of
        x # y # r \<Rightarrow>
          if x = CHR ''='' \<and> y = CHR ''='' then rev r
          else if x = CHR ''='' then rev (y # r) else d
      | [x] \<Rightarrow> if x = CHR ''='' then [] else d
      | [] \<Rightarrow> d)"

fun sextets :: "string \<Rightarrow> nat list option" where
  "sextets [] = Some []"
| "sextets (c # cs) =
     (case b64val c of
        None \<Rightarrow> None
      | Some v \<Rightarrow> (case sextets cs of None \<Rightarrow> None | Some vs \<Rightarrow> Some (v # vs)))"

text \<open>
  Four sextets give three bytes; a final group of three gives two bytes and a final group
  of two gives one, the spare low bits being discarded.
\<close>

fun decode_groups :: "nat list \<Rightarrow> nat list" where
  "decode_groups (a # b # c # d # rest) =
     [a * 4 + b div 16, (b mod 16) * 16 + c div 4, (c mod 4) * 64 + d] @ decode_groups rest"
| "decode_groups [a, b, c] = [a * 4 + b div 16, (b mod 16) * 16 + c div 4]"
| "decode_groups [a, b] = [a * 4 + b div 16]"
| "decode_groups [a] = []"
| "decode_groups [] = []"

definition atob :: "string \<Rightarrow> js_error + string" where
  "atob data =
     (let d1 = filter (\<lambda>c. \<not> ascii_whitespace c) data;
          d2 = (if length d1 mod 4 = 0 then strip_padding d1 else d1)
      in if length d2 mod 4 = 1
         then Inl (DOMException ''InvalidCharacterError'' ''The string to be decoded is not correctly encoded.'')
         else (case sextets d2 of
                 None \<Rightarrow> Inl (DOMException ''InvalidCharacterError''
                            ''The string to be decoded is not correctly encoded.'')
               | Some vs \<Rightarrow> Inr (map char_of (decode_groups vs))))"

subsection \<open>\<open>arrayBufferToBase64\<close> and \<open>base64ToFloat32Array\<close>\<close>

definition arrayBufferToBase64 :: "byte list \<Rightarrow> string" where
  "arrayBufferToBase64 buffer = btoa (map (\<lambda>b. char_of (unat b)) buffer)"

text \<open>
  \<open>new Int16Array(bytes.buffer)\<close>: the constructor of a typed-array view throws a
  \<open>RangeError\<close> when the byte length of the buffer is not a multiple of the element size.
\<close>

fun int16_elements :: "byte list \<Rightarrow> int16 list" where
  "int16_elements (lo # hi # rest) = (ucast lo OR push_bit 8 (ucast hi)) # int16_elements rest"
| "int16_elements [b] = []"
| "int16_elements [] = []"

definition Int16Array :: "byte list \<Rightarrow> js_error + int16 list" where
  "Int16Array buffer =
     (if length buffer mod 2 \<noteq> 0
      then Inl (RangeError ''byte length of Int16Array should be a multiple of 2'')
      else Inr (int16_elements buffer))"

definition base64ToFloat32Array :: "string \<Rightarrow> js_error + real list" where
  "base64ToFloat32Array base64 =
     (case atob base64 of
        Inl e \<Rightarrow> Inl e
      | Inr binaryString \<Rightarrow>
          let bytes = map (\<lambda>c. of_char c :: byte) binaryString
          in (case Int16Array bytes of
                Inl e \<Rightarrow> Inl e
              | Inr int16 \<Rightarrow> Inr (map (\<lambda>w. real_of_int (sint w) / 32768) int16)))"

section \<open>The live session\<close>

text \<open>
  What \<open>startLiveSession\<close> asks of its environment, and whether each request fails
  (\<open>Some e\<close>) or succeeds (\<open>None\<close>): the microphone, the two audio contexts, and the
  call of \<open>ai.live.connect\<close>.
\<close>

record environment =
  getUserMedia :: "js_error option"
  inputCtx :: "js_error option"
  outputCtx :: "js_error option"
  connect :: "js_error option"

datatype io = GetUserMedia | NewAudioContext nat | LiveConnect

text \<open>
  The state of one session: the application state and the closure variable
  \<open>nextStartTime\<close>.
\<close>

record session =
  app_state :: app
  nextStartTime :: real

text \<open>
  \<open>startLiveSession\<close> returns the application state, the requests it made in order,
  and the closure variable of the session when \<open>ai.live.connect\<close> was called and
  returned. Every exception of the \<open>try\<close> block reaches the one \<open>catch\<close>.
\<close>

definition startLiveSession :: "environment \<Rightarrow> app \<Rightarrow> app \<times> io list \<times> real option" where
  "startLiveSession env s =
     (let s1 = s\<lparr>liveError := None\<rparr>;
          caught = s1\<lparr>liveError := Some ''Microphone access denied.''\<rparr>
      in case getUserMedia env of
           Some e \<Rightarrow> (caught, [GetUserMedia], None)
         | None \<Rightarrow>
             (case inputCtx env of
                Some e \<Rightarrow> (caught, [GetUserMedia, NewAudioContext 16000], None)
              | None \<Rightarrow>
                  (case outputCtx env of
                     Some e \<Rightarrow>
                       (caught, [GetUserMedia, NewAudioContext 16000, NewAudioContext 24000], None)
                   | None \<Rightarrow>
                       (case connect env of
                          Some e \<Rightarrow>
                            (caught, [GetUserMedia, NewAudioContext 16000, NewAudioContext 24000,
                                      LiveConnect], None)
                        | None \<Rightarrow>
                            (s1, [GetUserMedia, NewAudioContext 16000, NewAudioContext 24000,
                                  LiveConnect], Some 0)))))"

text \<open>The callbacks \<open>onopen\<close>, \<open>onclose\<close> and \<open>onerror\<close>, as far as they write the state.\<close>

definition onopen :: "app \<Rightarrow> app" where
  "onopen s = s\<lparr>isLiveActive := True\<rparr>"

definition onclose :: "app \<Rightarrow> app" where
  "onclose s = s\<lparr>isLiveActive := False\<rparr>"

definition onerror :: "app \<Rightarrow> app" where
  "onerror s = s\<lparr>liveError := Some ''Connection error.'', isLiveActive := False\<rparr>"

text \<open>
  What \<open>onmessage\<close> does to the outside: it starts a buffer source at a time, and it
  sends tool responses.
\<close>

datatype effect = Start real "real list" | SendToolResponse FunctionResponse

text \<open>
  The audio branch of \<open>onmessage\<close>. \<open>createBuffer\<close> throws a \<open>NotSupportedError\<close> for
  a buffer of no frames. The duration of a buffer is its length over its sample rate.
  The result is the state reached, the effects so far, and the exception if one was
  thrown.
\<close>

definition play_audio :: "real \<Rightarrow> string \<Rightarrow> session \<Rightarrow> session \<times> effect list \<times> js_error option" where
  "play_audio now audioData ss =
     (case base64ToFloat32Array audioData of
        Inl e \<Rightarrow> (ss, [], Some e)
      | Inr float32Data \<Rightarrow>
          if length float32Data = 0
          then (ss, [], Some (DOMException ''NotSupportedError''
                  ''The number of frames provided (0) is less than or equal to the minimum bound (0).''))
          else
            let duration = real (length float32Data) / 24000;
                startTime = max now (nextStartTime ss)
            in (ss\<lparr>nextStartTime := startTime + duration\<rparr>, [Start startTime float32Data], None))"

text \<open>
  An inbound message, reduced to what \<open>onmessage\<close> reads:
  \<open>msg.serverContent?.modelTurn?.parts?.[0]?.inlineData?.data\<close> and \<open>msg.toolCall\<close>,
  whose \<open>functionCalls\<close> is optional.
\<close>

record ToolCall =
  functionCalls :: "FunctionCall list option"

record LiveServerMessage =
  audioData :: "string option"
  toolCall :: "ToolCall option"

text \<open>
  The first block of \<open>onmessage\<close>, \<open>if (audioData) { ... }\<close>. The first argument is
  \<open>outputCtx.currentTime\<close>. An empty string is falsy.
\<close>

definition audio_block ::
  "real \<Rightarrow> LiveServerMessage \<Rightarrow> session \<Rightarrow> session \<times> effect list \<times> js_error option" where
  "audio_block now msg ss =
     (case audioData msg of
        None \<Rightarrow> (ss, [], None)
      | Some d \<Rightarrow> if d = [] then (ss, [], None) else play_audio now d ss)"

text \<open>
  The second block, \<open>if (msg.toolCall) { ... }\<close>. The first argument gives the clock
  reading for the call at each position of the batch. Iterating over an absent
  \<open>functionCalls\<close> throws a \<open>TypeError\<close>.
\<close>

definition toolCall_block ::
  "(nat \<Rightarrow> string) \<Rightarrow> LiveServerMessage \<Rightarrow> session \<Rightarrow> session \<times> effect list \<times> js_error option" where
  "toolCall_block clock msg ss =
     (case toolCall msg of
        None \<Rightarrow> (ss, [], None)
      | Some tc \<Rightarrow>
          (case functionCalls tc of
             None \<Rightarrow> (ss, [], Some (TypeError ''undefined is not iterable''))
           | Some fcs \<Rightarrow>
               (case toolCall_loop (zip (map clock [0..<length fcs]) fcs) (app_state ss) of
                  (a, rs) \<Rightarrow> (ss\<lparr>app_state := a\<rparr>, map SendToolResponse rs, None))))"

text \<open>
  \<open>onmessage\<close>: the two blocks in sequence. An exception leaves the handler (the
  promise of the \<open>async\<close> callback is rejected) and nothing after it runs.
\<close>

definition onmessage ::
  "real \<Rightarrow> (nat \<Rightarrow> string) \<Rightarrow> LiveServerMessage \<Rightarrow> session \<Rightarrow> session \<times> effect list \<times> js_error option" where
  "onmessage now clock msg ss =
     (case audio_block now msg ss of
        (ss1, out1, Some e) \<Rightarrow> (ss1, out1, Some e)
      | (ss1, out1, None) \<Rightarrow>
          (case toolCall_block clock msg ss1 of
             (ss2, out2, e) \<Rightarrow> (ss2, out1 @ out2, e)))"

text \<open>
  A session serves its messages one after the other; the exception of one message does
  not stop the next. \<open>run\<close> collects the effects of a sequence of messages, each with
  its device time and clock.
\<close>

fun run :: "(real \<times> (nat \<Rightarrow> string) \<times> LiveServerMessage) list \<Rightarrow> session \<Rightarrow> session \<times> effect list" where
  "run [] ss = (ss, [])"
| "run ((now, clock, msg) # rest) ss =
     (case onmessage now clock msg ss of
        (ss1, out1, e) \<Rightarrow> (case run rest ss1 of (ss2, out2) \<Rightarrow> (ss2, out1 @ out2)))"

text \<open>The segments scheduled by a list of effects: start time and duration of each.\<close>

fun scheduled :: "effect list \<Rightarrow> (real \<times> real) list" where
  "scheduled [] = []"
| "scheduled (Start t samples # es) = (t, real (length samples) / 24000) # scheduled es"
| "scheduled (SendToolResponse r # es) = scheduled es"

section \<open>Auxiliary definitions\<close>

text \<open>The list held by the store: what \<open>getTasks\<close> resolves to.\<close>

definition stored :: "db \<Rightarrow> Task list" where
  "stored raw = (case raw of None \<Rightarrow> [] | Some ts \<Rightarrow> ts)"

text \<open>The sextets of a byte sequence, and the padding that follows their characters.\<close>

fun groups :: "nat list \<Rightarrow> nat list" where
  "groups (a # b # c # rest) =
     [a div 4, (a mod 4) * 16 + b div 16, (b mod 16) * 4 + c div 64, c mod 64] @ groups rest"
| "groups [a, b] = [a div 4, (a mod 4) * 16 + b div 16, (b mod 16) * 4]"
| "groups [a] = [a div 4, (a mod 4) * 16]"
| "groups [] = []"

definition padding :: "nat \<Rightarrow> string" where
  "padding n = (if n mod 3 = 0 then [] else if n mod 3 = 1 then ''=='' else ''='')"

text \<open>
  A list of segments (start time, duration) in which the first starts no earlier than
  \<open>lo\<close> and each next one no earlier than the end of the one before; and the end of the
  last segment.
\<close>

fun no_overlap :: "real \<Rightarrow> (real \<times> real) list \<Rightarrow> bool" where
  "no_overlap lo [] = True"
| "no_overlap lo ((t, d) # rest) = (lo \<le> t \<and> no_overlap (t + d) rest)"

fun last_end :: "real \<Rightarrow> (real \<times> real) list \<Rightarrow> real" where
  "last_end lo [] = lo"
| "last_end lo ((t, d) # rest) = last_end (t + d) rest"

subsection \<open>Concrete inputs\<close>

definition app0 :: app where
  "app0 = \<lparr>storage = None, tasks = [], isLoading = False, isLiveActive = False, liveError = None\<rparr>"

definition task1 :: Task where
  "task1 = \<lparr>task_id = 1, title = Some ''Write report'', description = [], priority = ''High'',
     completed = Some False, created_at = ''2024-05-01T09:00:00.000Z'', due_date = Some [],
     completed_at = None, subtasks = Some []\<rparr>"

definition no_args :: Args where
  "no_args = \<lparr>arg_title = None, arg_description = None, arg_priority = None,
     arg_due_date = None, arg_id = None, arg_completed = None\<rparr>"

definition call :: "string \<Rightarrow> string \<Rightarrow> Args \<Rightarrow> FunctionCall" where
  "call i n a = \<lparr>fc_id = Some i, fc_name = Some n, fc_args = Some a\<rparr>"

definition create_milk :: FunctionCall where
  "create_milk = call ''c1'' ''create_task'' (no_args\<lparr>arg_title := Some ''Buy milk''\<rparr>)"

definition complete_1 :: FunctionCall where
  "complete_1 = call ''c2'' ''update_task_status''
     (no_args\<lparr>arg_id := Some 1, arg_completed := Some True\<rparr>)"

definition complete_99 :: FunctionCall where
  "complete_99 = call ''c3'' ''update_task_status''
     (no_args\<lparr>arg_id := Some 99, arg_completed := Some True\<rparr>)"

definition list_tasks :: FunctionCall where
  "list_tasks = call ''c4'' ''get_tasks'' no_args"

definition fly_to_moon :: FunctionCall where
  "fly_to_moon = call ''c5'' ''fly_to_moon'' no_args"

definition noon :: string where
  "noon = ''2024-05-01T12:00:00.000Z''"

definition session0 :: session where
  "session0 = \<lparr>app_state = app0, nextStartTime = 0\<rparr>"

definition denied :: environment where
  "denied = \<lparr>getUserMedia = Some (DOMException ''NotAllowedError'' ''Permission denied''),
     inputCtx = None, outputCtx = None, connect = None\<rparr>"

text \<open>Two one-sample segments that arrive at the same device time.\<close>

definition two_segments :: "(real \<times> (nat \<Rightarrow> string) \<times> LiveServerMessage) list" where
  "two_segments =
     [(1, (\<lambda>i. noon), \<lparr>audioData = Some ''/z8='', toolCall = None\<rparr>),
      (1, (\<lambda>i. noon), \<lparr>audioData = Some ''AMA='', toolCall = None\<rparr>)]"

section \<open>Properties of the task store\<close>

lemma getTasks_stored: "getTasks raw = Inr (stored raw)"
  by (simp add: getTasks_def stored_def)

lemma Max_ids: "t \<in> set ts \<Longrightarrow> task_id t \<le> Max (set (map task_id ts))"
  by simp

text \<open>
  Claim C10. On a store whose ids are pairwise distinct, \<open>createTask\<close> gives the new task
  the id \<open>max + 1\<close> (1 on an empty store), which is greater than every stored id, and
  puts it in front of the list, whose ids are pairwise distinct again.
\<close>

theorem createTask_fresh_id:
  assumes "distinct (map task_id (stored raw))"
  shows "\<exists>t. createTask now data raw = Inr (t, Some (t # stored raw))
      \<and> task_id t = (if stored raw = [] then 1 else Max (set (map task_id (stored raw))) + 1)
      \<and> (\<forall>u \<in> set (stored raw). task_id u < task_id t)
      \<and> distinct (map task_id (t # stored raw))"
proof -
  define n where "n = (if stored raw = [] then 1 else Max (set (map task_id (stored raw))) + 1)"
  have lt: "task_id u < n" if "u \<in> set (stored raw)" for u
  proof -
    have "stored raw \<noteq> []" using that by auto
    moreover have "task_id u \<le> Max (set (map task_id (stored raw)))" using that by (rule Max_ids)
    ultimately show ?thesis by (simp add: n_def)
  qed
  then have fresh: "n \<notin> task_id ` set (stored raw)" by force
  obtain t where t: "createTask now data raw = Inr (t, Some (t # stored raw))" "task_id t = n"
    by (simp add: createTask_def getTasks_stored Let_def n_def)
  show ?thesis
    using assms lt fresh t unfolding n_def [symmetric] by (intro exI [of _ t]) simp
qed

theorem createTask_fresh_id_witness:
  "distinct (map task_id (stored (Some [task1])))
   \<and> (\<exists>t. createTask noon
            \<lparr>data_title = Some ''Buy milk'', data_description = [], data_priority = ''Medium'',
             data_completed = False, data_due_date = None, data_completed_at = None,
             data_subtasks = None\<rparr> (Some [task1]) = Inr (t, Some [t, task1])
          \<and> task_id t = 2)"
proof -
  have d: "distinct (map task_id (stored (Some [task1])))" by (simp add: stored_def)
  show ?thesis
    using d createTask_fresh_id [OF d, of noon
            "\<lparr>data_title = Some ''Buy milk'', data_description = [], data_priority = ''Medium'',
             data_completed = False, data_due_date = None, data_completed_at = None,
             data_subtasks = None\<rparr>"]
    by (auto simp: stored_def task1_def)
qed

text \<open>
  Claim C8, as stated, fails: deleting an id that no stored task has succeeds and leaves
  the store as it was. \<open>deleteTask\<close> has no not-found outcome.
\<close>

theorem deleteTask_absent_id_succeeds:
  "deleteTask (Some 2) (Some [task1]) = Inr (Some [task1])
   \<and> \<not> isl (deleteTask (Some 2) (Some [task1]))"
  by (simp add: deleteTask_def getTasks_def task1_def)

text \<open>
  Claim C8, amended. \<open>deleteTask\<close> always succeeds and stores the tasks whose id differs
  from the given one, in their order. For an id that no task has the list is unchanged;
  for an id that a task has, the ids being distinct, exactly that task is removed.
\<close>

theorem deleteTask_filters:
  "deleteTask (Some i) raw = Inr (Some (filter (\<lambda>t. task_id t \<noteq> i) (stored raw)))
   \<and> (i \<notin> task_id ` set (stored raw) \<longrightarrow> deleteTask (Some i) raw = Inr (Some (stored raw)))
   \<and> (i \<in> task_id ` set (stored raw) \<and> distinct (map task_id (stored raw)) \<longrightarrow>
        (\<exists>pre t post. stored raw = pre @ t # post \<and> task_id t = i
           \<and> deleteTask (Some i) raw = Inr (Some (pre @ post))))"
proof -
  have eq: "deleteTask (Some i) raw = Inr (Some (filter (\<lambda>t. task_id t \<noteq> i) (stored raw)))"
    by (simp add: deleteTask_def getTasks_stored)
  have absent: "filter (\<lambda>t. task_id t \<noteq> i) (stored raw) = stored raw"
    if "i \<notin> task_id ` set (stored raw)"
    using that by (intro filter_True) auto
  have present: "\<exists>pre t post. stored raw = pre @ t # post \<and> task_id t = i
      \<and> filter (\<lambda>t. task_id t \<noteq> i) (stored raw) = pre @ post"
    if "i \<in> task_id ` set (stored raw)" and d: "distinct (map task_id (stored raw))"
  proof -
    from that obtain t where "t \<in> set (stored raw)" "task_id t = i" by auto
    then obtain pre post where sp: "stored raw = pre @ t # post" by (auto simp: in_set_conv_decomp)
    have "\<forall>u \<in> set pre \<union> set post. task_id u \<noteq> i"
      using d \<open>task_id t = i\<close> unfolding sp by (auto simp: image_iff)
    then have "filter (\<lambda>t. task_id t \<noteq> i) (pre @ t # post) = pre @ post"
      using \<open>task_id t = i\<close> by (simp add: filter_id_conv)
    then show ?thesis using sp \<open>task_id t = i\<close> by auto
  qed
  show ?thesis using eq absent present by auto
qed

theorem deleteTask_filters_witness:
  "2 \<notin> task_id ` set (stored (Some [task1]))
   \<and> deleteTask (Some 2) (Some [task1]) = Inr (Some (stored (Some [task1])))
   \<and> 1 \<in> task_id ` set (stored (Some [task1]))
   \<and> distinct (map task_id (stored (Some [task1])))
   \<and> (\<exists>pre t post. stored (Some [task1]) = pre @ t # post \<and> task_id t = 1
         \<and> deleteTask (Some 1) (Some [task1]) = Inr (Some (pre @ post)))"
proof -
  have a: "2 \<notin> task_id ` set (stored (Some [task1]))" by (simp add: stored_def task1_def)
  have p: "1 \<in> task_id ` set (stored (Some [task1])) \<and> distinct (map task_id (stored (Some [task1])))"
    by (simp add: stored_def task1_def)
  show ?thesis
    using a p deleteTask_filters [of 2 "Some [task1]"] deleteTask_filters [of 1 "Some [task1]"]
    by blast
qed

section \<open>Properties of the tool dispatcher\<close>

lemma loadTasks_eq: "loadTasks s = s\<lparr>tasks := stored (storage s), isLoading := False\<rparr>"
  by (simp add: loadTasks_def getTasks_stored)

lemma handle_call_resp_id: "resp_id (snd (handle_call c s)) = fc_id (snd c)"
  by (simp add: handle_call_def split: prod.splits sum.splits)

lemma handle_call_resp_name: "resp_name (snd (handle_call c s)) = fc_name (snd c)"
  by (simp add: handle_call_def split: prod.splits sum.splits)

lemma toolCall_loop_Cons:
  "toolCall_loop (c # cs) s =
     (fst (toolCall_loop cs (fst (handle_call c s))),
      snd (handle_call c s) # snd (toolCall_loop cs (fst (handle_call c s))))"
  by (simp split: prod.splits)

lemma toolCall_loop_length: "length (snd (toolCall_loop cs s)) = length cs"
  by (induction cs arbitrary: s) (simp_all add: toolCall_loop_Cons del: toolCall_loop.simps(2))

lemma toolCall_loop_ids: "map resp_id (snd (toolCall_loop cs s)) = map (\<lambda>c. fc_id (snd c)) cs"
  by (induction cs arbitrary: s)
     (simp_all add: toolCall_loop_Cons handle_call_resp_id del: toolCall_loop.simps(2))

lemma toolCall_loop_names:
  "map resp_name (snd (toolCall_loop cs s)) = map (\<lambda>c. fc_name (snd c)) cs"
  by (induction cs arbitrary: s)
     (simp_all add: toolCall_loop_Cons handle_call_resp_name del: toolCall_loop.simps(2))

lemma toolCall_loop_append:
  "toolCall_loop (xs @ ys) s =
     (fst (toolCall_loop ys (fst (toolCall_loop xs s))),
      snd (toolCall_loop xs s) @ snd (toolCall_loop ys (fst (toolCall_loop xs s))))"
  by (induction xs arbitrary: s) (simp_all add: toolCall_loop_Cons del: toolCall_loop.simps(2))

lemma snd_zip_clock: "map snd (zip (map clock [0..<length fcs]) fcs) = fcs"
  by (simp add: map_snd_zip)

text \<open>An exception of the \<open>try\<close> block is thrown before the state is written.\<close>

lemma call_body_throw: "call_body now fc s = (s', Inl e) \<Longrightarrow> s' = s"
  by (auto simp: call_body_def split: if_splits sum.splits prod.splits)

lemma handle_call_throw:
  "call_body (fst c) (snd c) s = (s', Inl e) \<Longrightarrow>
   handle_call c s = (s, \<lparr>resp_id = fc_id (snd c), resp_name = fc_name (snd c),
                           response = Res_error (message e)\<rparr>)"
  using call_body_throw [of "fst c" "snd c" s s' e] by (simp add: handle_call_def)

text \<open>
  Claim C3. For a tool-call message with \<open>N\<close> function calls, whatever their names and
  outcomes, the dispatching block of \<open>onmessage\<close> ends without an exception and sends
  \<open>N\<close> tool responses and nothing else, the \<open>i\<close>-th carrying the id and the name of
  the \<open>i\<close>-th call; for a message without audio this is all that \<open>onmessage\<close> does.
\<close>

theorem tool_dispatch_completeness:
  assumes "toolCall msg = Some tc" and "functionCalls tc = Some fcs"
  shows "\<exists>ss' rs. toolCall_block clock msg ss = (ss', map SendToolResponse rs, None)
      \<and> (audioData msg = None \<longrightarrow>
            onmessage now clock msg ss = (ss', map SendToolResponse rs, None))
      \<and> length rs = length fcs
      \<and> map resp_id rs = map fc_id fcs
      \<and> map resp_name rs = map fc_name fcs"
proof -
  let ?cs = "zip (map clock [0..<length fcs]) fcs"
  obtain a rs where l: "toolCall_loop ?cs (app_state ss) = (a, rs)"
    by (cases "toolCall_loop ?cs (app_state ss)")
  have b: "toolCall_block clock msg ss = (ss\<lparr>app_state := a\<rparr>, map SendToolResponse rs, None)"
    using assms l by (simp add: toolCall_block_def)
  have o: "onmessage now clock msg ss = (ss\<lparr>app_state := a\<rparr>, map SendToolResponse rs, None)"
    if "audioData msg = None"
    using that by (simp add: onmessage_def audio_block_def b)
  have n: "length rs = length fcs" using toolCall_loop_length [of ?cs "app_state ss"] l by simp
  have "map resp_id rs = map (\<lambda>c. fc_id (snd c)) ?cs"
    using toolCall_loop_ids [of ?cs "app_state ss"] l by simp
  also have "\<dots> = map fc_id (map snd ?cs)" by (simp only: map_map comp_def)
  finally have i: "map resp_id rs = map fc_id fcs" by (simp only: snd_zip_clock)
  have "map resp_name rs = map (\<lambda>c. fc_name (snd c)) ?cs"
    using toolCall_loop_names [of ?cs "app_state ss"] l by simp
  also have "\<dots> = map fc_name (map snd ?cs)" by (simp only: map_map comp_def)
  finally have m: "map resp_name rs = map fc_name fcs" by (simp only: snd_zip_clock)
  show ?thesis
    using b o n i m by (intro exI [of _ "ss\<lparr>app_state := a\<rparr>"] exI [of _ rs]) simp
qed

theorem tool_dispatch_completeness_witness:
  "\<exists>ss' rs. toolCall_block (\<lambda>i. noon)
       \<lparr>audioData = None,
        toolCall = Some \<lparr>functionCalls = Some [create_milk, fly_to_moon, complete_99]\<rparr>\<rparr> session0
         = (ss', map SendToolResponse rs, None)
      \<and> onmessage 1 (\<lambda>i. noon)
       \<lparr>audioData = None,
        toolCall = Some \<lparr>functionCalls = Some [create_milk, fly_to_moon, complete_99]\<rparr>\<rparr> session0
         = (ss', map SendToolResponse rs, None)
      \<and> length rs = 3
      \<and> map resp_id rs = [Some ''c1'', Some ''c5'', Some ''c3'']
      \<and> map resp_name rs = [Some ''create_task'', Some ''fly_to_moon'', Some ''update_task_status'']"
proof -
  let ?msg = "\<lparr>audioData = None,
        toolCall = Some \<lparr>functionCalls = Some [create_milk, fly_to_moon, complete_99]\<rparr>\<rparr>"
  have ids: "map fc_id [create_milk, fly_to_moon, complete_99] = [Some ''c1'', Some ''c5'', Some ''c3'']"
    and names: "map fc_name [create_milk, fly_to_moon, complete_99]
      = [Some ''create_task'', Some ''fly_to_moon'', Some ''update_task_status'']"
    and len: "length [create_milk, fly_to_moon, complete_99] = 3"
    by (simp_all add: create_milk_def fly_to_moon_def complete_99_def call_def)
  have au: "(audioData ?msg = None) = True" by simp
  have "\<exists>ss' rs. toolCall_block (\<lambda>i. noon) ?msg session0 = (ss', map SendToolResponse rs, None)
      \<and> (audioData ?msg = None \<longrightarrow>
            onmessage 1 (\<lambda>i. noon) ?msg session0 = (ss', map SendToolResponse rs, None))
      \<and> length rs = length [create_milk, fly_to_moon, complete_99]
      \<and> map resp_id rs = map fc_id [create_milk, fly_to_moon, complete_99]
      \<and> map resp_name rs = map fc_name [create_milk, fly_to_moon, complete_99]"
    by (rule tool_dispatch_completeness
          [where tc = "\<lparr>functionCalls = Some [create_milk, fly_to_moon, complete_99]\<rparr>"])
       simp_all
  then show ?thesis unfolding ids names len au by (simp only: simp_thms)
qed

text \<open>
  Claim C4. When the \<open>try\<close> block of one call of a batch throws (for instance
  \<open>updateTask\<close> on an id that no task has), the loop still ends normally, the response to
  that call carries the exception's message as its error payload, and the final state and
  the responses to all the other calls are those of the batch without that call.
\<close>

theorem tool_dispatch_isolation:
  assumes "call_body (fst c) (snd c) (fst (toolCall_loop pre s)) = (s', Inl e)"
  shows "toolCall_loop (pre @ c # post) s =
     (fst (toolCall_loop (pre @ post) s),
      take (length pre) (snd (toolCall_loop (pre @ post) s))
      @ \<lparr>resp_id = fc_id (snd c), resp_name = fc_name (snd c), response = Res_error (message e)\<rparr>
      # drop (length pre) (snd (toolCall_loop (pre @ post) s)))"
proof -
  let ?s1 = "fst (toolCall_loop pre s)"
  have h: "handle_call c ?s1 = (?s1, \<lparr>resp_id = fc_id (snd c), resp_name = fc_name (snd c),
                           response = Res_error (message e)\<rparr>)"
    using assms by (rule handle_call_throw)
  show ?thesis
    by (simp add: toolCall_loop_append [of pre] toolCall_loop_Cons h toolCall_loop_length
        del: toolCall_loop.simps(2))
qed

lemma update_missing_throws:
  assumes "fc_name fc = Some ''update_task_status''" and "fc_args fc = Some a"
    and "findIndex (\<lambda>t. Some (task_id t) = arg_id a) (stored (storage s)) = None"
  shows "call_body now fc s = (s, Inl (Error ''404 Not Found''))"
  using assms by (simp add: call_body_def args_of_def updateTask_def getTasks_stored)

lemma create_milk_state:
  "storage (fst (toolCall_loop [(noon, create_milk)] app0)) =
     Some [\<lparr>task_id = 1, title = Some ''Buy milk'', description = [], priority = ''Medium'',
            completed = Some False, created_at = noon, due_date = Some [],
            completed_at = None, subtasks = Some []\<rparr>]"
  by (simp add: handle_call_def call_body_def args_of_def createTask_def getTasks_stored
      stored_def loadTasks_eq or_str_def create_milk_def call_def no_args_def app0_def Let_def)

theorem tool_dispatch_isolation_witness:
  "call_body noon complete_99 (fst (toolCall_loop [(noon, create_milk)] app0))
     = (fst (toolCall_loop [(noon, create_milk)] app0), Inl (Error ''404 Not Found''))
   \<and> toolCall_loop ([(noon, create_milk)] @ (noon, complete_99) # [(noon, list_tasks)]) app0 =
     (fst (toolCall_loop ([(noon, create_milk)] @ [(noon, list_tasks)]) app0),
      take 1 (snd (toolCall_loop ([(noon, create_milk)] @ [(noon, list_tasks)]) app0))
      @ \<lparr>resp_id = Some ''c3'', resp_name = Some ''update_task_status'',
          response = Res_error ''404 Not Found''\<rparr>
      # drop 1 (snd (toolCall_loop ([(noon, create_milk)] @ [(noon, list_tasks)]) app0)))"
proof -
  have h: "call_body (fst (noon, complete_99)) (snd (noon, complete_99))
             (fst (toolCall_loop [(noon, create_milk)] app0))
           = (fst (toolCall_loop [(noon, create_milk)] app0), Inl (Error ''404 Not Found''))"
    unfolding fst_conv snd_conv
    by (rule update_missing_throws [where a = "no_args\<lparr>arg_id := Some 99, arg_completed := Some True\<rparr>"])
       (simp_all add: complete_99_def call_def create_milk_state stored_def no_args_def
          del: toolCall_loop.simps)
  show ?thesis
    using h tool_dispatch_isolation [OF h, of "[(noon, list_tasks)]"]
    by (simp add: complete_99_def call_def del: toolCall_loop.simps)
qed

text \<open>
  Claim C7. A \<open>create_task\<close> call that has a title is answered by exactly one response,
  which carries the created task: the task has that title, is not completed, has
  priority Medium when the call gives none, and is put in front of the stored list.
\<close>

theorem create_task_defaults:
  assumes "fc_name fc = Some ''create_task''" and "fc_args fc = Some a" and "arg_title a = Some t"
  shows "\<exists>task s'. toolCall_loop [(now, fc)] s =
            (s', [\<lparr>resp_id = fc_id fc, resp_name = Some ''create_task'', response = Res_task task\<rparr>])
         \<and> title task = Some t \<and> completed task = Some False
         \<and> (arg_priority a = None \<longrightarrow> priority task = ''Medium'')
         \<and> storage s' = Some (task # stored (storage s))"
  using assms
  by (simp add: handle_call_def call_body_def args_of_def createTask_def getTasks_stored Let_def
      or_str_def loadTasks_eq)

theorem create_task_defaults_witness:
  "fc_name create_milk = Some ''create_task''
   \<and> fc_args create_milk = Some (no_args\<lparr>arg_title := Some ''Buy milk''\<rparr>)
   \<and> arg_title (no_args\<lparr>arg_title := Some ''Buy milk''\<rparr>) = Some ''Buy milk''
   \<and> arg_priority (no_args\<lparr>arg_title := Some ''Buy milk''\<rparr>) = None
   \<and> (\<exists>task s'. toolCall_loop [(noon, create_milk)] app0 =
            (s', [\<lparr>resp_id = Some ''c1'', resp_name = Some ''create_task'', response = Res_task task\<rparr>])
         \<and> title task = Some ''Buy milk'' \<and> completed task = Some False
         \<and> priority task = ''Medium''
         \<and> storage s' = Some [task])"
proof -
  have n: "fc_name create_milk = Some ''create_task''"
    and a: "fc_args create_milk = Some (no_args\<lparr>arg_title := Some ''Buy milk''\<rparr>)"
    and t: "arg_title (no_args\<lparr>arg_title := Some ''Buy milk''\<rparr>) = Some ''Buy milk''"
    and p: "arg_priority (no_args\<lparr>arg_title := Some ''Buy milk''\<rparr>) = None"
    by (simp_all add: create_milk_def call_def no_args_def)
  have i: "fc_id create_milk = Some ''c1''" by (simp add: create_milk_def call_def)
  have e: "stored (storage app0) = []" by (simp add: stored_def app0_def)
  show ?thesis
    using n a t p create_task_defaults [OF n a t, of noon app0]
    unfolding i e by (simp del: toolCall_loop.simps)
qed

text \<open>
  Claim C5 is not what the dispatcher does: \<open>update_task_status\<close> with \<open>completed\<close> true
  on an existing task sets the flag and answers with success, but the task's
  \<open>completed_at\<close> stays absent. The interface's own toggle stamps it.
\<close>

theorem update_task_status_leaves_completed_at:
  "storage (fst (toolCall_loop [(noon, complete_1)] (app0\<lparr>storage := Some [task1]\<rparr>)))
     = Some [task1\<lparr>completed := Some True\<rparr>]
   \<and> map response (snd (toolCall_loop [(noon, complete_1)] (app0\<lparr>storage := Some [task1]\<rparr>)))
     = [Res_success]
   \<and> map completed_at (stored (storage (fst (toolCall_loop [(noon, complete_1)]
         (app0\<lparr>storage := Some [task1]\<rparr>))))) = [None]
   \<and> handleToggle noon 1 False (app0\<lparr>storage := Some [task1], tasks := [task1]\<rparr>)
     = Inr (app0\<lparr>storage := Some [task1\<lparr>completed := Some True, completed_at := Some noon\<rparr>],
                 tasks := [task1\<lparr>completed := Some True, completed_at := Some noon\<rparr>]\<rparr>)"
  by (simp add: handle_call_def call_body_def args_of_def updateTask_def getTasks_stored
      stored_def loadTasks_eq complete_1_def call_def no_args_def app0_def task1_def
      no_updates_def spread_def override_def handleToggle_def Let_def)

text \<open>
  In general the dispatcher's \<open>update_task_status\<close> passes one key, \<open>completed\<close>, so
  the spread keeps every other field of the task, \<open>completed_at\<close> among them.
\<close>

lemma update_task_status_spread:
  "spread t (no_updates\<lparr>upd_completed := Some c\<rparr>) = t\<lparr>completed := c\<rparr>"
  by (simp add: spread_def no_updates_def override_def)

section \<open>Properties of the codec\<close>

subsection \<open>\<open>atob\<close> undoes \<open>btoa\<close>\<close>

lemma padding_Suc3: "padding (Suc (Suc (Suc n))) = padding n"
proof -
  have "Suc (Suc (Suc n)) mod 3 = n mod 3" by presburger
  then show ?thesis by (simp only: padding_def)
qed

lemma padding_small: "padding 0 = []" "padding (Suc 0) = ''==''" "padding (Suc (Suc 0)) = ''=''"
  by (simp_all add: padding_def)

lemma length_alphabet: "length alphabet = 64"
  by (simp add: alphabet_def)

lemma distinct_alphabet: "distinct alphabet"
  by (simp add: alphabet_def)

lemma findIndex_nth:
  "distinct xs \<Longrightarrow> n < length xs \<Longrightarrow> findIndex (\<lambda>x. x = xs ! n) xs = Some n"
proof (induction xs arbitrary: n)
  case Nil
  then show ?case by simp
next
  case (Cons x xs)
  show ?case
  proof (cases n)
    case 0
    then show ?thesis by simp
  next
    case (Suc m)
    with Cons.prems have "m < length xs" "xs ! m \<in> set xs" "x \<notin> set xs" by auto
    then have "x \<noteq> xs ! m" by auto
    with Cons Suc \<open>m < length xs\<close> show ?thesis by simp
  qed
qed

lemma b64val_b64char: "n < 64 \<Longrightarrow> b64val (b64char n) = Some n"
  unfolding b64val_def b64char_def
  by (rule findIndex_nth) (simp_all add: distinct_alphabet length_alphabet)

lemma b64char_in: "n < 64 \<Longrightarrow> b64char n \<in> set alphabet"
  by (simp add: b64char_def length_alphabet)

lemma b64char_not_pad: "n < 64 \<Longrightarrow> b64char n \<noteq> CHR ''=''"
proof -
  have "CHR ''='' \<notin> set alphabet" by (simp add: alphabet_def)
  then show "n < 64 \<Longrightarrow> b64char n \<noteq> CHR ''=''" using b64char_in [of n] by auto
qed

lemma alphabet_not_ws: "c \<in> set alphabet \<Longrightarrow> \<not> ascii_whitespace c"
  by (auto simp: alphabet_def ascii_whitespace_def)

lemma pad_not_ws: "\<not> ascii_whitespace CHR ''=''"
  by (simp add: ascii_whitespace_def)

lemma encode_groups_eq:
  "encode_groups xs = map b64char (groups xs) @ padding (length xs)"
  by (induction xs rule: groups.induct) (simp_all add: padding_Suc3 padding_small)

lemma groups_bound: "\<forall>x \<in> set xs. x < 256 \<Longrightarrow> \<forall>v \<in> set (groups xs). v < 64"
proof (induction xs rule: groups.induct)
  case (1 a b c rest)
  have "a div 4 < 64" "(a mod 4) * 16 + b div 16 < 64" "(b mod 16) * 4 + c div 64 < 64" "c mod 64 < 64"
    using "1.prems" by (auto simp: less_mult_imp_div_less)
  then show ?case using 1 by simp
next
  case (2 a b)
  have "a div 4 < 64" "(a mod 4) * 16 + b div 16 < 64" "(b mod 16) * 4 < 64"
    using "2.prems" by auto
  then show ?case by simp
next
  case (3 a)
  have "a div 4 < 64" "(a mod 4) * 16 < 64" using "3.prems" by auto
  then show ?case by simp
next
  case 4
  show ?case by simp
qed

lemma decode_groups_groups: "\<forall>x \<in> set xs. x < 256 \<Longrightarrow> decode_groups (groups xs) = xs"
proof (induction xs rule: groups.induct)
  case (1 a b c rest)
  have "a div 4 * 4 + ((a mod 4) * 16 + b div 16) div 16 = a"
       "(((a mod 4) * 16 + b div 16) mod 16) * 16 + ((b mod 16) * 4 + c div 64) div 4 = b"
       "(((b mod 16) * 4 + c div 64) mod 4) * 64 + c mod 64 = c"
    using "1.prems" by auto
  then show ?case using 1 by simp
next
  case (2 a b)
  have "a div 4 * 4 + ((a mod 4) * 16 + b div 16) div 16 = a"
       "(((a mod 4) * 16 + b div 16) mod 16) * 16 + ((b mod 16) * 4) div 4 = b"
    using "2.prems" by auto
  then show ?case by simp
next
  case (3 a)
  have "a div 4 * 4 + ((a mod 4) * 16) div 16 = a" by simp
  then show ?case by simp
next
  case 4
  show ?case by simp
qed

lemma length_groups: "(length (groups xs) + length (padding (length xs))) mod 4 = 0"
  by (induction xs rule: groups.induct) (simp_all add: padding_Suc3 padding_small)

lemma length_groups_mod: "length (groups xs) mod 4 \<noteq> 1"
  by (induction xs rule: groups.induct) simp_all

lemma sextets_map: "\<forall>v \<in> set vs. v < 64 \<Longrightarrow> sextets (map b64char vs) = Some vs"
  by (induction vs) (simp_all add: b64val_b64char)

lemma strip_padding_body:
  assumes "\<forall>c \<in> set body. c \<noteq> CHR ''=''"
  shows "strip_padding (body @ padding n) = body"
proof -
  have hd_ok: "x \<noteq> CHR ''=''" if "rev body = x # r" for x r
  proof -
    have "x \<in> set (rev body)" using that by simp
    then show ?thesis using assms by simp
  qed
  have rb: "rev (rev body) = body" by simp
  consider (a) "padding n = []" | (b) "padding n = ''==''" | (c) "padding n = ''=''"
    by (cases "n mod 3 = 0"; cases "n mod 3 = 1") (simp_all add: padding_def)
  then show ?thesis
  proof cases
    case a
    show ?thesis
    proof (cases "rev body")
      case Nil
      then show ?thesis using a by (simp add: strip_padding_def)
    next
      case (Cons x r)
      then show ?thesis using a hd_ok [OF Cons]
        by (cases r) (simp_all add: strip_padding_def)
    qed
  next
    case b
    then show ?thesis by (simp add: strip_padding_def)
  next
    case c
    show ?thesis
    proof (cases "rev body")
      case Nil
      then show ?thesis using c by (simp add: strip_padding_def)
    next
      case (Cons x r)
      have rr: "rev (x # r) = body" using rb unfolding Cons .
      have r: "rev (body @ ''='') = CHR ''='' # x # r" using Cons by simp
      have hx: "(x = CHR ''='') = False" using hd_ok [OF Cons] by simp
      have "strip_padding (body @ ''='') = rev (x # r)"
        by (simp only: strip_padding_def r list.case hx simp_thms if_True if_False)
      then show ?thesis using c rr by simp
    qed
  qed
qed

lemma atob_btoa: "atob (btoa s) = Inr s"
proof -
  let ?xs = "map of_char s :: nat list"
  let ?body = "map b64char (groups ?xs)"
  have bytes: "\<forall>x \<in> set ?xs. x < 256" by simp
  have small: "\<forall>v \<in> set (groups ?xs). v < 64" using bytes by (rule groups_bound)
  have enc: "btoa s = ?body @ padding (length ?xs)"
    by (simp only: btoa_def encode_groups_eq)
  have nopad: "\<forall>c \<in> set ?body. c \<noteq> CHR ''=''"
    using small by (auto simp: b64char_not_pad)
  have nows: "\<forall>c \<in> set (?body @ padding (length ?xs)). \<not> ascii_whitespace c"
    using small by (auto simp: padding_def pad_not_ws intro!: alphabet_not_ws b64char_in)
  have f: "filter (\<lambda>c. \<not> ascii_whitespace c) (btoa s) = btoa s"
    unfolding enc using nows by (intro filter_True) simp
  have len: "length (btoa s) mod 4 = 0"
    unfolding enc using length_groups [of ?xs] by simp
  have strip: "strip_padding (btoa s) = ?body"
    unfolding enc using nopad by (rule strip_padding_body)
  have lb: "length ?body mod 4 \<noteq> 1" using length_groups_mod [of ?xs] by simp
  have sx: "sextets ?body = Some (groups ?xs)" using small by (rule sextets_map)
  have dec: "decode_groups (groups ?xs) = ?xs" using bytes by (rule decode_groups_groups)
  have chars: "map char_of ?xs = s" by (simp add: comp_def)
  show ?thesis
    unfolding atob_def f Let_def len using strip lb sx dec chars by simp
qed

subsection \<open>Bytes, 16-bit words and samples\<close>

lemma byte_char: "(of_char (char_of (unat b)) :: byte) = b"
proof -
  have "(of_char (char_of (unat b)) :: byte) = of_nat (of_char (char_of (unat b)))"
    by (simp only: of_nat_of_char)
  also have "\<dots> = of_nat (unat b mod 256)" by simp
  also have "unat b mod 256 = unat b" using unsigned_less [of b, where 'a = nat] by simp
  finally show ?thesis by simp
qed

lemma int16_join:
  "(ucast (ucast w :: byte) :: int16) OR push_bit 8 (ucast (ucast (drop_bit 8 w) :: byte)) = w"
  by (rule bit_word_eqI) (auto simp: bit_simps)

lemma int16_elements_bytes: "int16_elements (concat (map int16_bytes ws)) = ws"
  by (induction ws) (simp_all add: int16_bytes_def int16_join)

lemma length_bytes: "length (concat (map int16_bytes ws)) = 2 * length ws"
  by (induction ws) (simp_all add: int16_bytes_def)

lemma decode_encode:
  "base64ToFloat32Array (arrayBufferToBase64 (float32To16BitPCM xs)) =
     Inr (map (\<lambda>x. real_of_int (sint (pcm_sample x)) / 32768) xs)"
proof -
  let ?ws = "map pcm_sample xs"
  have b: "float32To16BitPCM xs = concat (map int16_bytes ?ws)"
    by (simp add: float32To16BitPCM_def comp_def)
  have bytes_back: "map (\<lambda>c. of_char c :: byte) (map (\<lambda>b. char_of (unat b)) bs) = bs" for bs
    by (induction bs) (simp_all add: byte_char)
  have view: "Int16Array (concat (map int16_bytes ?ws)) = Inr ?ws"
    by (simp only: Int16Array_def length_bytes int16_elements_bytes) simp
  show ?thesis
    unfolding base64ToFloat32Array_def arrayBufferToBase64_def atob_btoa b
    by (simp only: sum.case Let_def bytes_back view) (simp add: comp_def)
qed

lemma sint_small: "- 32768 \<le> k \<Longrightarrow> k < 32768 \<Longrightarrow> sint (word_of_int k :: int16) = k"
  by (simp add: sint_sbintrunc' signed_take_bit_int_eq_self)

lemma sample_negative:
  assumes "- 1 \<le> x" and "x < 0"
  shows "sint (pcm_sample x) = \<lceil>x * 32768\<rceil>"
    and "0 \<le> real_of_int (sint (pcm_sample x)) / 32768 - x"
    and "real_of_int (sint (pcm_sample x)) / 32768 - x < 1 / 32768"
proof -
  let ?k = "\<lceil>x * 32768\<rceil>"
  have s: "max (- 1) (min 1 x) = x" using assms by simp
  have p: "pcm_sample x = word_of_int ?k"
    using assms by (simp add: pcm_sample_def ToInt16_def s Let_def mult_less_0_iff)
  have lo: "- 32768 \<le> ?k"
    using assms by (simp add: le_ceiling_iff)
  have hi: "?k \<le> 0" using assms by (simp add: ceiling_le_iff mult_le_0_iff)
  show k: "sint (pcm_sample x) = ?k" unfolding p using lo hi by (intro sint_small) simp_all
  have c: "real_of_int ?k - 1 < x * 32768 \<and> x * 32768 \<le> real_of_int ?k" by (rule ceiling_correct)
  show "0 \<le> real_of_int (sint (pcm_sample x)) / 32768 - x" unfolding k using c by simp
  show "real_of_int (sint (pcm_sample x)) / 32768 - x < 1 / 32768" unfolding k using c
    by (simp add: field_simps)
qed

lemma sample_nonnegative:
  assumes "0 \<le> x" and "x \<le> 1"
  shows "sint (pcm_sample x) = \<lfloor>x * 32767\<rfloor>"
    and "0 \<le> x - real_of_int (sint (pcm_sample x)) / 32768"
    and "x - real_of_int (sint (pcm_sample x)) / 32768 < (1 + x) / 32768"
proof -
  let ?k = "\<lfloor>x * 32767\<rfloor>"
  have s: "max (- 1) (min 1 x) = x" using assms by simp
  have p: "pcm_sample x = word_of_int ?k"
    using assms by (simp add: pcm_sample_def ToInt16_def s Let_def mult_less_0_iff)
  have lo: "0 \<le> ?k" using assms by simp
  have hi: "?k \<le> 32767" using assms by (simp add: floor_le_iff)
  show k: "sint (pcm_sample x) = ?k" unfolding p using lo hi by (intro sint_small) simp_all
  have c: "real_of_int ?k \<le> x * 32767 \<and> x * 32767 < real_of_int ?k + 1"
    using floor_correct [of "x * 32767"] by simp
  show "0 \<le> x - real_of_int (sint (pcm_sample x)) / 32768" unfolding k
    using of_int_floor_le [of "x * 32767"] assms by linarith
  show "x - real_of_int (sint (pcm_sample x)) / 32768 < (1 + x) / 32768" unfolding k using c
    by (simp add: field_simps)
qed

lemma sample_error:
  assumes "- 1 \<le> x" and "x \<le> 1"
  shows "\<bar>real_of_int (sint (pcm_sample x)) / 32768 - x\<bar> < 2 / 32768"
    and "x \<le> 0 \<Longrightarrow> \<bar>real_of_int (sint (pcm_sample x)) / 32768 - x\<bar> < 1 / 32768"
proof -
  show "\<bar>real_of_int (sint (pcm_sample x)) / 32768 - x\<bar> < 2 / 32768"
  proof (cases "x < 0")
    case True
    from sample_negative(2,3) [OF assms(1) True] show ?thesis by simp
  next
    case False
    then have "0 \<le> x" by simp
    from sample_nonnegative(2,3) [OF this assms(2)] assms(2) show ?thesis by (simp add: field_simps)
  qed
  show "\<bar>real_of_int (sint (pcm_sample x)) / 32768 - x\<bar> < 1 / 32768" if "x \<le> 0"
  proof (cases "x < 0")
    case True
    from sample_negative(2,3) [OF assms(1) True] show ?thesis by simp
  next
    case False
    then have "x = 0" using that by simp
    then show ?thesis by (simp add: pcm_sample_def ToInt16_def)
  qed
qed

text \<open>
  Claim C2, as stated, fails. The sample \<open>65535/65536\<close> (a 32-bit float in \<open>[-1, 1]\<close>)
  is encoded as \<open>32766\<close> and decoded as \<open>16383/16384\<close>, which is \<open>3/65536\<close> away from it:
  more than one quantization step \<open>1/32768\<close>.
\<close>

theorem one_step_bound_fails:
  "base64ToFloat32Array (arrayBufferToBase64 (float32To16BitPCM [65535 / 65536])) = Inr [16383 / 16384]
   \<and> 1 / 32768 < \<bar>16383 / 16384 - 65535 / 65536 :: real\<bar>"
proof -
  have "pcm_sample (65535 / 65536) = 32766" by (simp add: pcm_sample_def ToInt16_def)
  then show ?thesis by (simp add: decode_encode)
qed

text \<open>
  Claim C2, amended. For samples in \<open>[-1, 1]\<close>, decoding the encoded form succeeds and
  gives as many samples; each differs from the original by less than two quantization
  steps, and by less than one step when the original is not positive.
\<close>

theorem codec_round_trip:
  assumes "\<forall>x \<in> set xs. - 1 \<le> x \<and> x \<le> 1"
  shows "\<exists>ys. base64ToFloat32Array (arrayBufferToBase64 (float32To16BitPCM xs)) = Inr ys
      \<and> length ys = length xs
      \<and> (\<forall>i < length xs. \<bar>ys ! i - xs ! i\<bar> < 2 / 32768
            \<and> (xs ! i \<le> 0 \<longrightarrow> \<bar>ys ! i - xs ! i\<bar> < 1 / 32768))"
proof -
  let ?ys = "map (\<lambda>x. real_of_int (sint (pcm_sample x)) / 32768) xs"
  have "\<bar>?ys ! i - xs ! i\<bar> < 2 / 32768 \<and> (xs ! i \<le> 0 \<longrightarrow> \<bar>?ys ! i - xs ! i\<bar> < 1 / 32768)"
    if "i < length xs" for i
  proof -
    have r: "- 1 \<le> xs ! i" "xs ! i \<le> 1" using assms that by simp_all
    show ?thesis using sample_error [OF r] that by simp
  qed
  then show ?thesis using decode_encode [of xs] by (intro exI [of _ ?ys]) simp
qed

theorem codec_round_trip_witness:
  "- 1 \<le> (1 / 2 :: real) \<and> (1 / 2 :: real) \<le> 1 \<and> - 1 \<le> (- 1 :: real) \<and> (- 1 :: real) \<le> 1
   \<and> - 1 \<le> (65535 / 65536 :: real) \<and> (65535 / 65536 :: real) \<le> 1
   \<and> (\<exists>ys. base64ToFloat32Array (arrayBufferToBase64 (float32To16BitPCM [1 / 2, - 1, 65535 / 65536]))
             = Inr ys
      \<and> length ys = 3
      \<and> \<bar>ys ! 0 - 1 / 2\<bar> < 2 / 32768 \<and> \<bar>ys ! 1 - (- 1)\<bar> < 1 / 32768
      \<and> \<bar>ys ! 2 - 65535 / 65536\<bar> < 2 / 32768)"
proof -
  let ?xs = "[1 / 2, - 1, 65535 / 65536 :: real]"
  have h: "\<forall>x \<in> set ?xs. - 1 \<le> x \<and> x \<le> 1" by simp
  obtain ys where
    e: "base64ToFloat32Array (arrayBufferToBase64 (float32To16BitPCM ?xs)) = Inr ys"
    and l: "length ys = length ?xs"
    and b: "\<forall>i < length ?xs. \<bar>ys ! i - ?xs ! i\<bar> < 2 / 32768
         \<and> (?xs ! i \<le> 0 \<longrightarrow> \<bar>ys ! i - ?xs ! i\<bar> < 1 / 32768)"
    using codec_round_trip [OF h] by (elim exE conjE)
  have l3: "length ys = 3" using l by simp
  have i0: "(0::nat) < length ?xs" and i1: "(1::nat) < length ?xs" and i2: "(2::nat) < length ?xs"
    by simp_all
  have b0: "\<bar>ys ! 0 - 1 / 2\<bar> < 2 / 32768" using b [rule_format, OF i0] by simp
  have b1: "\<bar>ys ! 1 - (- 1)\<bar> < 1 / 32768" using b [rule_format, OF i1] by simp
  have b2: "\<bar>ys ! 2 - 65535 / 65536\<bar> < 2 / 32768" using b [rule_format, OF i2] by simp
  have "\<exists>ys. base64ToFloat32Array (arrayBufferToBase64 (float32To16BitPCM ?xs)) = Inr ys
      \<and> length ys = 3
      \<and> \<bar>ys ! 0 - 1 / 2\<bar> < 2 / 32768 \<and> \<bar>ys ! 1 - (- 1)\<bar> < 1 / 32768
      \<and> \<bar>ys ! 2 - 65535 / 65536\<bar> < 2 / 32768"
    using e l3 b0 b1 b2 by (intro exI [of _ ys] conjI)
  then show ?thesis by simp
qed

subsection \<open>Byte sequences of odd length\<close>

lemma atob_empty: "atob [] = Inr []"
  by (simp add: atob_def strip_padding_def)

lemma odd_bytes_throw:
  assumes "atob base64 = Inr binaryString" and "odd (length binaryString)"
  shows "base64ToFloat32Array base64
     = Inl (RangeError ''byte length of Int16Array should be a multiple of 2'')"
  using assms by (simp add: base64ToFloat32Array_def Int16Array_def Let_def odd_iff_mod_2_eq_one)

text \<open>
  Claim C6, as stated, fails. The text \<open>QQ==\<close> decodes to one byte. Decoding it throws the
  \<open>RangeError\<close> of the typed-array constructor; \<open>onmessage\<close> does not catch it, so the
  handler ends with that exception and the function call of the same message is never
  answered.
\<close>

theorem odd_audio_escapes_onmessage:
  "atob ''QQ=='' = Inr ''A''
   \<and> base64ToFloat32Array ''QQ==''
       = Inl (RangeError ''byte length of Int16Array should be a multiple of 2'')
   \<and> onmessage 1 (\<lambda>i. noon)
        \<lparr>audioData = Some ''QQ=='', toolCall = Some \<lparr>functionCalls = Some [list_tasks]\<rparr>\<rparr> session0
       = (session0, [], Some (RangeError ''byte length of Int16Array should be a multiple of 2''))"
proof -
  have a: "atob ''QQ=='' = Inr ''A''" by code_simp
  have b: "base64ToFloat32Array ''QQ==''
       = Inl (RangeError ''byte length of Int16Array should be a multiple of 2'')"
    using a by (intro odd_bytes_throw [of _ "''A''"]) simp_all
  show ?thesis
    using a b by (simp add: onmessage_def audio_block_def play_audio_def)
qed

text \<open>
  Claim C6, amended. For every text that decodes to a byte sequence of odd length,
  \<open>base64ToFloat32Array\<close> throws the \<open>RangeError\<close> of the \<open>Int16Array\<close> constructor
  before any sample is decoded (nothing is truncated), and \<open>onmessage\<close> ends with that
  exception: nothing is scheduled, no response is sent and the state is unchanged.
\<close>

theorem odd_audio_throws_RangeError:
  assumes "atob base64 = Inr binaryString" and "odd (length binaryString)"
  shows "base64ToFloat32Array base64
       = Inl (RangeError ''byte length of Int16Array should be a multiple of 2'')
     \<and> onmessage now clock \<lparr>audioData = Some base64, toolCall = tc\<rparr> ss
       = (ss, [], Some (RangeError ''byte length of Int16Array should be a multiple of 2''))"
proof -
  have ne: "base64 \<noteq> []" using assms atob_empty by auto
  have t: "base64ToFloat32Array base64
       = Inl (RangeError ''byte length of Int16Array should be a multiple of 2'')"
    using assms by (rule odd_bytes_throw)
  show ?thesis using ne t by (simp add: onmessage_def audio_block_def play_audio_def)
qed

theorem odd_audio_throws_RangeError_witness:
  "atob ''QUJD'' = Inr ''ABC'' \<and> odd (length ''ABC'')
   \<and> base64ToFloat32Array ''QUJD''
       = Inl (RangeError ''byte length of Int16Array should be a multiple of 2'')
   \<and> onmessage 1 (\<lambda>i. noon) \<lparr>audioData = Some ''QUJD'', toolCall = None\<rparr> session0
       = (session0, [], Some (RangeError ''byte length of Int16Array should be a multiple of 2''))"
proof -
  have a: "atob ''QUJD'' = Inr ''ABC''" by code_simp
  have o: "odd (length ''ABC'')" by simp
  show ?thesis
    using a o odd_audio_throws_RangeError [OF a o, of 1 "\<lambda>i. noon" None session0] by simp
qed

section \<open>Properties of the playback scheduler\<close>

lemma scheduled_append: "scheduled (xs @ ys) = scheduled xs @ scheduled ys"
  by (induction xs rule: scheduled.induct) simp_all

lemma scheduled_responses: "scheduled (map SendToolResponse rs) = []"
  by (induction rs) simp_all

lemma no_overlap_append:
  "no_overlap lo (xs @ ys) = (no_overlap lo xs \<and> no_overlap (last_end lo xs) ys)"
  by (induction lo xs rule: no_overlap.induct) simp_all

lemma play_audio_ok:
  "base64ToFloat32Array d = Inr samples \<Longrightarrow> samples \<noteq> [] \<Longrightarrow>
   play_audio now d ss =
     (ss\<lparr>nextStartTime := max now (nextStartTime ss) + real (length samples) / 24000\<rparr>,
      [Start (max now (nextStartTime ss)) samples], None)"
  by (simp add: play_audio_def Let_def)

text \<open>
  Whatever a block does, the segments it schedules start no earlier than \<open>nextStartTime\<close>
  was, and \<open>nextStartTime\<close> afterwards is the end of the last of them.
\<close>

lemma play_audio_chain:
  "play_audio now d ss = (ss1, out1, e) \<Longrightarrow>
   no_overlap (nextStartTime ss) (scheduled out1)
   \<and> last_end (nextStartTime ss) (scheduled out1) = nextStartTime ss1"
  by (auto simp: play_audio_def Let_def split: sum.splits if_splits)

lemma audio_block_chain:
  "audio_block now msg ss = (ss1, out1, e) \<Longrightarrow>
   no_overlap (nextStartTime ss) (scheduled out1)
   \<and> last_end (nextStartTime ss) (scheduled out1) = nextStartTime ss1"
  unfolding audio_block_def
  by (cases "audioData msg") (auto dest: play_audio_chain split: if_splits)

lemma toolCall_block_chain:
  "toolCall_block clock msg ss = (ss1, out1, e) \<Longrightarrow>
   scheduled out1 = [] \<and> nextStartTime ss1 = nextStartTime ss"
  unfolding toolCall_block_def
  by (auto simp: scheduled_responses split: option.splits prod.splits)

lemma onmessage_chain:
  assumes "onmessage now clock msg ss = (ss1, out1, e)"
  shows "no_overlap (nextStartTime ss) (scheduled out1)
   \<and> last_end (nextStartTime ss) (scheduled out1) = nextStartTime ss1"
proof -
  obtain sa oa ea where a: "audio_block now msg ss = (sa, oa, ea)" by (metis prod_cases3)
  note ca = audio_block_chain [OF a]
  show ?thesis
  proof (cases ea)
    case (Some x)
    then show ?thesis using assms ca by (simp add: onmessage_def a)
  next
    case None
    obtain sb ob eb where b: "toolCall_block clock msg sa = (sb, ob, eb)" by (metis prod_cases3)
    note cb = toolCall_block_chain [OF b]
    have "ss1 = sb" "out1 = oa @ ob" using assms None by (simp_all add: onmessage_def a b)
    then show ?thesis using ca cb by (simp add: scheduled_append)
  qed
qed

lemma run_chain:
  "no_overlap (nextStartTime ss) (scheduled (snd (run msgs ss)))"
proof (induction msgs arbitrary: ss)
  case Nil
  show ?case by simp
next
  case (Cons m msgs)
  obtain now clock msg where m: "m = (now, clock, msg)" by (cases m)
  obtain ss1 out1 e where o: "onmessage now clock msg ss = (ss1, out1, e)" by (metis prod_cases3)
  obtain ss2 out2 where r: "run msgs ss1 = (ss2, out2)" by (cases "run msgs ss1")
  have "no_overlap (nextStartTime ss1) (scheduled out2)" using Cons.IH [of ss1] r by simp
  then show ?case
    using onmessage_chain [OF o] by (simp add: m o r scheduled_append no_overlap_append)
qed

lemma no_overlap_next:
  "no_overlap lo segs \<Longrightarrow> Suc n < length segs \<Longrightarrow>
   fst (segs ! n) + snd (segs ! n) \<le> fst (segs ! Suc n)"
proof (induction lo segs arbitrary: n rule: no_overlap.induct)
  case (1 lo)
  then show ?case by simp
next
  case (2 lo t d rest)
  show ?case
  proof (cases n)
    case 0
    with "2.prems" show ?thesis by (cases rest) auto
  next
    case (Suc m)
    with 2 show ?thesis by simp
  qed
qed

lemma no_overlap_sum:
  "no_overlap lo segs \<Longrightarrow> n < length segs \<Longrightarrow>
   fst (segs ! 0) + (\<Sum>k<n. snd (segs ! k)) \<le> fst (segs ! n)"
proof (induction n)
  case 0
  then show ?case by simp
next
  case (Suc n)
  then have "fst (segs ! 0) + (\<Sum>k<n. snd (segs ! k)) \<le> fst (segs ! n)" by simp
  moreover have "fst (segs ! n) + snd (segs ! n) \<le> fst (segs ! Suc n)"
    using Suc.prems by (rule no_overlap_next)
  ultimately show ?case by simp
qed

text \<open>
  Claim C1. A segment that decodes to a non-empty buffer is started at the maximum of
  the device time and \<open>nextStartTime\<close>, and \<open>nextStartTime\<close> becomes that start plus the
  buffer's duration. So for every sequence of messages served by a session, from any
  \<open>nextStartTime\<close> (the session starts with 0), each scheduled segment starts no earlier
  than the start of the one before plus its duration, and the \<open>n\<close>-th starts no earlier
  than the first start plus the sum of the durations before it. Times are exact reals.
\<close>

theorem scheduler_non_overlap:
  "(base64ToFloat32Array d = Inr samples \<and> samples \<noteq> [] \<longrightarrow>
      play_audio now d ss =
        (ss\<lparr>nextStartTime := max now (nextStartTime ss) + real (length samples) / 24000\<rparr>,
         [Start (max now (nextStartTime ss)) samples], None))
   \<and> (\<forall>n. Suc n < length (scheduled (snd (run msgs ss))) \<longrightarrow>
         fst (scheduled (snd (run msgs ss)) ! n) + snd (scheduled (snd (run msgs ss)) ! n)
           \<le> fst (scheduled (snd (run msgs ss)) ! Suc n))
   \<and> (\<forall>n < length (scheduled (snd (run msgs ss))).
         fst (scheduled (snd (run msgs ss)) ! 0) + (\<Sum>k<n. snd (scheduled (snd (run msgs ss)) ! k))
           \<le> fst (scheduled (snd (run msgs ss)) ! n))"
proof (intro conjI allI impI)
  assume "base64ToFloat32Array d = Inr samples \<and> samples \<noteq> []"
  then show "play_audio now d ss =
        (ss\<lparr>nextStartTime := max now (nextStartTime ss) + real (length samples) / 24000\<rparr>,
         [Start (max now (nextStartTime ss)) samples], None)"
    using play_audio_ok [of d samples now ss] by simp
next
  fix n
  assume "Suc n < length (scheduled (snd (run msgs ss)))"
  with run_chain [of ss msgs]
  show "fst (scheduled (snd (run msgs ss)) ! n) + snd (scheduled (snd (run msgs ss)) ! n)
           \<le> fst (scheduled (snd (run msgs ss)) ! Suc n)"
    by (rule no_overlap_next)
next
  fix n
  assume "n < length (scheduled (snd (run msgs ss)))"
  with run_chain [of ss msgs]
  show "fst (scheduled (snd (run msgs ss)) ! 0) + (\<Sum>k<n. snd (scheduled (snd (run msgs ss)) ! k))
           \<le> fst (scheduled (snd (run msgs ss)) ! n)"
    by (rule no_overlap_sum)
qed

lemma decode_one_sample: "base64ToFloat32Array ''/z8='' = Inr [16383 / 32768]"
  by code_simp

lemma run_two_segments:
  "scheduled (snd (run two_segments session0)) = [(1, 1 / 24000), (24001 / 24000, 1 / 24000)]"
  by code_simp

theorem scheduler_non_overlap_witness:
  "base64ToFloat32Array ''/z8='' = Inr [16383 / 32768] \<and> [16383 / 32768 :: real] \<noteq> []
   \<and> play_audio 1 ''/z8='' session0 =
        (session0\<lparr>nextStartTime := max 1 (nextStartTime session0) + real (length [16383 / 32768 :: real]) / 24000\<rparr>,
         [Start (max 1 (nextStartTime session0)) [16383 / 32768]], None)
   \<and> Suc 0 < length (scheduled (snd (run two_segments session0)))
   \<and> fst (scheduled (snd (run two_segments session0)) ! 0)
       + snd (scheduled (snd (run two_segments session0)) ! 0)
       \<le> fst (scheduled (snd (run two_segments session0)) ! Suc 0)
   \<and> fst (scheduled (snd (run two_segments session0)) ! 0)
       + (\<Sum>k<Suc 0. snd (scheduled (snd (run two_segments session0)) ! k))
       \<le> fst (scheduled (snd (run two_segments session0)) ! Suc 0)
   \<and> scheduled (snd (run two_segments session0)) = [(1, 1 / 24000), (1 + 1 / 24000, 1 / 24000)]"
proof -
  note t = scheduler_non_overlap [of "''/z8=''" "[16383 / 32768]" 1 session0 two_segments]
  have d: "base64ToFloat32Array ''/z8='' = Inr [16383 / 32768] \<and> [16383 / 32768 :: real] \<noteq> []"
    using decode_one_sample by simp
  have n: "Suc 0 < length (scheduled (snd (run two_segments session0)))"
    by (simp add: run_two_segments)
  have r: "scheduled (snd (run two_segments session0)) = [(1, 1 / 24000), (1 + 1 / 24000, 1 / 24000)]"
    by (simp add: run_two_segments)
  note p = t [THEN conjunct1, rule_format, OF d]
  note a = t [THEN conjunct2, THEN conjunct1, rule_format, OF n]
  note b = t [THEN conjunct2, THEN conjunct2, rule_format, OF n]
  show ?thesis
    using d p n a b r by (intro conjI) (simp_all only: simp_thms)
qed

section \<open>Properties of the session start\<close>

text \<open>
  Claim C9. When the microphone request fails, \<open>startLiveSession\<close> ends with the error
  message for a denied microphone in \<open>liveError\<close>; the only request it has made is the
  one for the microphone, so \<open>ai.live.connect\<close> is never called and no session (no
  callback, and so no \<open>onopen\<close>) exists; \<open>isLiveActive\<close> is unchanged, false from the
  initial state.
\<close>

theorem start_device_denied:
  assumes "getUserMedia env = Some e"
  shows "startLiveSession env s
       = (s\<lparr>liveError := Some ''Microphone access denied.''\<rparr>, [GetUserMedia], None)
     \<and> LiveConnect \<notin> set (fst (snd (startLiveSession env s)))
     \<and> snd (snd (startLiveSession env s)) = None
     \<and> isLiveActive (fst (startLiveSession env s)) = isLiveActive s"
  using assms by (simp add: startLiveSession_def)

theorem start_device_denied_witness:
  "getUserMedia denied = Some (DOMException ''NotAllowedError'' ''Permission denied'')
   \<and> startLiveSession denied app0
       = (app0\<lparr>liveError := Some ''Microphone access denied.''\<rparr>, [GetUserMedia], None)
   \<and> LiveConnect \<notin> set (fst (snd (startLiveSession denied app0)))
   \<and> snd (snd (startLiveSession denied app0)) = None
   \<and> isLiveActive (fst (startLiveSession denied app0)) = False"
proof -
  have g: "getUserMedia denied = Some (DOMException ''NotAllowedError'' ''Permission denied'')"
    by (simp add: denied_def)
  have i: "isLiveActive app0 = False" by (simp add: app0_def)
  show ?thesis using g i start_device_denied [OF g, of app0] by simp
qed

text \<open>
  The state only becomes active in \<open>onopen\<close>, a callback of a session that was opened.
\<close>

lemma start_ok_connects:
  "getUserMedia env = None \<Longrightarrow> inputCtx env = None \<Longrightarrow> outputCtx env = None \<Longrightarrow>
   connect env = None \<Longrightarrow>
   startLiveSession env s
     = (s\<lparr>liveError := None\<rparr>,
        [GetUserMedia, NewAudioContext 16000, NewAudioContext 24000, LiveConnect], Some 0)"
  by (simp add: startLiveSession_def)

end
